theory Spec2Isabelle
  imports Complex_Main "HOL-Library.Word" "HOL-Library.AList"
begin

section \<open>Python values used by sim900.py\<close>

text \<open>
  A Python \<open>str\<close> is a sequence of Unicode code points, a \<open>bytes\<close> object a sequence
  of octets.  \<open>len\<close> of a \<open>str\<close> counts code points, which is what \<open>decode\<close> relies on.
\<close>

type_synonym pystr = "nat list"
type_synonym byte = "8 word"
type_synonym bytes = "byte list"
type_synonym timestamp = rat

definition ustr :: "string \<Rightarrow> pystr" where
  "ustr s = map of_char s"

definition bstr :: "string \<Rightarrow> bytes" where
  "bstr s = map of_char s"

text \<open>
  The exceptions that the modelled code can raise.  \<open>LibraryError\<close> stands for any other
  exception coming out of the external PDU codec.
\<close>

datatype exn =
    IndexError
  | ValueError
  | OverflowError
  | UnicodeDecodeError
  | UnicodeEncodeError
  | EncodingError
  | LibraryError nat
  | Sim900Error pystr
  | Sim900NoResponse

subsection \<open>Subscripts\<close>

definition index :: "'a list \<Rightarrow> nat \<Rightarrow> exn + 'a" where
  \<comment> \<open>\<open>xs[i]\<close> for a non-negative \<open>i\<close>\<close>
  "index xs i = (if i < length xs then Inr (xs ! i) else Inl IndexError)"

definition index_last :: "'a list \<Rightarrow> exn + 'a" where
  \<comment> \<open>\<open>xs[-1]\<close>\<close>
  "index_last xs = (case rev xs of [] \<Rightarrow> Inl IndexError | x # _ \<Rightarrow> Inr x)"

subsection \<open>String operations\<close>

fun contains :: "pystr \<Rightarrow> pystr \<Rightarrow> bool" where
  \<comment> \<open>\<open>sub in s\<close>\<close>
  "contains sub [] = (sub = [])"
| "contains sub (c # cs) = (take (length sub) (c # cs) = sub \<or> contains sub cs)"

function split_str :: "pystr \<Rightarrow> pystr \<Rightarrow> pystr \<Rightarrow> pystr list" where
  \<comment> \<open>\<open>s.split(sep)\<close> for a non-empty \<open>sep\<close>, scanning left to right; the second
      argument is the piece collected so far\<close>
  "split_str sep acc [] = [acc]"
| "split_str sep acc (c # cs) =
     (if sep \<noteq> [] \<and> take (length sep) (c # cs) = sep
      then acc # split_str sep [] (drop (length sep) (c # cs))
      else split_str sep (acc @ [c]) cs)"
  by pat_completeness auto
termination
  by (relation "measure (\<lambda>(sep, acc, s). length s)") (auto simp: neq_Nil_conv)

definition py_isspace :: "nat \<Rightarrow> bool" where
  \<comment> \<open>\<open>str.isspace\<close> on one character (the whitespace table of the Unicode database)\<close>
  "py_isspace c =
     ((9 \<le> c \<and> c \<le> 13) \<or> (28 \<le> c \<and> c \<le> 32) \<or> c = 0x85 \<or> c = 0xA0 \<or> c = 0x1680
      \<or> (0x2000 \<le> c \<and> c \<le> 0x200A) \<or> c = 0x2028 \<or> c = 0x2029 \<or> c = 0x202F
      \<or> c = 0x205F \<or> c = 0x3000)"

fun split_ws :: "pystr \<Rightarrow> pystr \<Rightarrow> pystr list" where
  \<comment> \<open>\<open>s.split()\<close>: runs of whitespace separate, empty pieces are dropped\<close>
  "split_ws cur [] = (if cur = [] then [] else [cur])"
| "split_ws cur (c # cs) =
     (if py_isspace c then (if cur = [] then split_ws [] cs else cur # split_ws [] cs)
      else split_ws (cur @ [c]) cs)"

definition remove_quotes :: "pystr \<Rightarrow> pystr" where
  \<comment> \<open>\<open>s.replace('"', "")\<close>\<close>
  "remove_quotes s = filter (\<lambda>c. c \<noteq> 34) s"

definition upper_ascii :: "pystr \<Rightarrow> pystr" where
  \<comment> \<open>\<open>s.upper()\<close> on ASCII text; \<open>encode\<close> applies it to hex digits only\<close>
  "upper_ascii s = map (\<lambda>c. if 97 \<le> c \<and> c \<le> 122 then c - 32 else c) s"

subsection \<open>Text codecs\<close>

definition cont :: "byte \<Rightarrow> bool" where
  "cont b = (0x80 \<le> unat b \<and> unat b \<le> 0xBF)"

definition utf8_take :: "bytes \<Rightarrow> (nat \<times> bytes) option" where
  \<comment> \<open>one code point off the front of a strict UTF-8 byte sequence\<close>
  "utf8_take bs =
     (case bs of
        [] \<Rightarrow> None
      | b # r \<Rightarrow>
          (let n = unat b in
           if n < 0x80 then Some (n, r)
           else if 0xC2 \<le> n \<and> n \<le> 0xDF then
             (case r of
                c1 # r1 \<Rightarrow>
                  if cont c1 then Some ((n - 0xC0) * 64 + (unat c1 - 0x80), r1) else None
              | _ \<Rightarrow> None)
           else if 0xE0 \<le> n \<and> n \<le> 0xEF then
             (case r of
                c1 # c2 # r2 \<Rightarrow>
                  if (if n = 0xE0 then 0xA0 else 0x80) \<le> unat c1
                     \<and> unat c1 \<le> (if n = 0xED then 0x9F else 0xBF) \<and> cont c2
                  then Some ((n - 0xE0) * 4096 + (unat c1 - 0x80) * 64 + (unat c2 - 0x80), r2)
                  else None
              | _ \<Rightarrow> None)
           else if 0xF0 \<le> n \<and> n \<le> 0xF4 then
             (case r of
                c1 # c2 # c3 # r3 \<Rightarrow>
                  if (if n = 0xF0 then 0x90 else 0x80) \<le> unat c1
                     \<and> unat c1 \<le> (if n = 0xF4 then 0x8F else 0xBF) \<and> cont c2 \<and> cont c3
                  then Some ((n - 0xF0) * 262144 + (unat c1 - 0x80) * 4096
                             + (unat c2 - 0x80) * 64 + (unat c3 - 0x80), r3)
                  else None
              | _ \<Rightarrow> None)
           else None))"

function utf8_decode :: "bytes \<Rightarrow> exn + pystr" where
  \<comment> \<open>\<open>b.decode("utf-8")\<close>\<close>
  "utf8_decode bs =
     (if bs = [] then Inr []
      else case utf8_take bs of
             None \<Rightarrow> Inl UnicodeDecodeError
           | Some (c, r) \<Rightarrow>
               (case utf8_decode r of Inl e \<Rightarrow> Inl e | Inr cs \<Rightarrow> Inr (c # cs)))"
  by pat_completeness auto
termination
  by (relation "measure length")
     (auto simp: utf8_take_def Let_def split: list.splits if_splits)

declare utf8_decode.simps [simp del]

definition utf8_char :: "nat \<Rightarrow> bytes option" where
  "utf8_char c =
     (if c < 0x80 then Some [of_nat c]
      else if c < 0x800 then Some [of_nat (0xC0 + c div 64), of_nat (0x80 + c mod 64)]
      else if 0xD800 \<le> c \<and> c \<le> 0xDFFF then None
      else if c < 0x10000 then
        Some [of_nat (0xE0 + c div 4096), of_nat (0x80 + c div 64 mod 64), of_nat (0x80 + c mod 64)]
      else if c < 0x110000 then
        Some [of_nat (0xF0 + c div 262144), of_nat (0x80 + c div 4096 mod 64),
              of_nat (0x80 + c div 64 mod 64), of_nat (0x80 + c mod 64)]
      else None)"

fun utf8_encode :: "pystr \<Rightarrow> exn + bytes" where
  \<comment> \<open>\<open>bytes(s, "utf-8")\<close>\<close>
  "utf8_encode [] = Inr []"
| "utf8_encode (c # cs) =
     (case utf8_char c of
        None \<Rightarrow> Inl UnicodeEncodeError
      | Some b \<Rightarrow> (case utf8_encode cs of Inl e \<Rightarrow> Inl e | Inr bs \<Rightarrow> Inr (b @ bs)))"

definition utf16_be_char :: "nat \<Rightarrow> bytes option" where
  "utf16_be_char c =
     (if 0xD800 \<le> c \<and> c \<le> 0xDFFF then None
      else if c < 0x10000 then Some [of_nat (c div 256), of_nat (c mod 256)]
      else if c < 0x110000 then
        (let v = c - 0x10000; hi = 0xD800 + v div 1024; lo = 0xDC00 + v mod 1024
         in Some [of_nat (hi div 256), of_nat (hi mod 256), of_nat (lo div 256), of_nat (lo mod 256)])
      else None)"

fun utf16_be_encode :: "pystr \<Rightarrow> exn + bytes" where
  \<comment> \<open>\<open>s.encode("utf-16-be")\<close>\<close>
  "utf16_be_encode [] = Inr []"
| "utf16_be_encode (c # cs) =
     (case utf16_be_char c of
        None \<Rightarrow> Inl UnicodeEncodeError
      | Some b \<Rightarrow> (case utf16_be_encode cs of Inl e \<Rightarrow> Inl e | Inr bs \<Rightarrow> Inr (b @ bs)))"

definition hexdigit :: "nat \<Rightarrow> byte" where
  "hexdigit d = of_nat (if d < 10 then 48 + d else 87 + d)"

definition hexlify :: "bytes \<Rightarrow> bytes" where
  \<comment> \<open>\<open>binascii.hexlify\<close>: two lower-case hex digits per octet\<close>
  "hexlify bs = concat (map (\<lambda>b. [hexdigit (unat b div 16), hexdigit (unat b mod 16)]) bs)"

subsection \<open>Numbers and text\<close>

text \<open>
  What the external libraries and the interpreter supply: the PDU codec of
  \<open>gsmmodem.pdu\<close>, the decimal-digit table of the Unicode database (for characters
  from 127 on) and the interpreter's limit on the digits of a decimal literal
  (0 switches it off).

  Modelled from the spec: the codec's interface, \<open>decode(rawFrame)\<close> giving sender,
  timestamp, text and an optional fragmentation header (reference id, part index,
  total part count), failing with \<open>EncodingError\<close> on malformed input, and
  \<open>encode(destinationPhone, text)\<close> giving frames that each carry a declared length.
\<close>

record ie =
  ie_reference :: nat
  ie_parts :: nat
  ie_number :: nat

record pdu =
  pdu_number :: pystr
  pdu_time :: timestamp
  pdu_text :: pystr
  pdu_udh :: "ie list"

record submit_pdu =
  tpduLength :: int
  pdu_str :: pystr

record env =
  decodeSmsPdu :: "pystr \<Rightarrow> exn + pdu"
  encodeSmsSubmitPdu :: "pystr \<Rightarrow> pystr \<Rightarrow> exn + submit_pdu list"
  unicode_decimal :: "nat \<Rightarrow> nat option"
  int_max_str_digits :: nat

definition ascii_space :: "nat \<Rightarrow> bool" where
  "ascii_space c = ((9 \<le> c \<and> c \<le> 13) \<or> c = 32)"

definition digit_value :: "nat \<Rightarrow> nat option" where
  "digit_value c =
     (if 48 \<le> c \<and> c \<le> 57 then Some (c - 48)
      else if 97 \<le> c \<and> c \<le> 122 then Some (c - 87)
      else if 65 \<le> c \<and> c \<le> 90 then Some (c - 55)
      else None)"

definition to_ascii :: "env \<Rightarrow> nat \<Rightarrow> nat" where
  \<comment> \<open>\<open>int\<close> first maps Unicode spaces to a blank and Unicode decimal digits to ASCII
      digits; any other character from 127 on becomes \<open>?\<close>, which no literal contains\<close>
  "to_ascii E c =
     (if c < 127 then c
      else if py_isspace c then 32
      else case unicode_decimal E c of Some d \<Rightarrow> 48 + d | None \<Rightarrow> 63)"

fun scan_digits :: "nat \<Rightarrow> nat \<Rightarrow> pystr \<Rightarrow> (nat list \<times> pystr) option" where
  \<comment> \<open>the longest run of digits below the base and underscores; \<open>None\<close> for a doubled or
      trailing underscore; the second argument is the previous character\<close>
  "scan_digits base prev [] = (if prev = 95 then None else Some ([], []))"
| "scan_digits base prev (c # cs) =
     (if c = 95 then (if prev = 95 then None else scan_digits base 95 cs)
      else case digit_value c of
             None \<Rightarrow> (if prev = 95 then None else Some ([], c # cs))
           | Some d \<Rightarrow>
               if d < base
               then (case scan_digits base c cs of
                       None \<Rightarrow> None
                     | Some (ds, r) \<Rightarrow> Some (d # ds, r))
               else (if prev = 95 then None else Some ([], c # cs)))"

definition int_sign :: "pystr \<Rightarrow> bool \<times> pystr" where
  \<comment> \<open>an optional sign\<close>
  "int_sign s =
     (case s of
        [] \<Rightarrow> (False, [])
      | c # r \<Rightarrow> if c = 45 then (True, r) else if c = 43 then (False, r) else (False, c # r))"

definition int_prefix :: "nat \<Rightarrow> pystr \<Rightarrow> pystr" where
  \<comment> \<open>base 16 allows \<open>0x\<close> or \<open>0X\<close>, and one underscore after it\<close>
  "int_prefix base s =
     (case s of
        a # b # r \<Rightarrow>
          if a = 48 \<and> base = 16 \<and> (b = 120 \<or> b = 88)
          then (case r of [] \<Rightarrow> [] | u # r' \<Rightarrow> if u = 95 then r' else u # r')
          else s
      | _ \<Rightarrow> s)"

definition too_many_digits :: "env \<Rightarrow> nat \<Rightarrow> nat \<Rightarrow> bool" where
  \<comment> \<open>the digit limit applies to bases that are not a power of two\<close>
  "too_many_digits E base n =
     (base \<noteq> 16 \<and> 640 < n \<and> 0 < int_max_str_digits E \<and> int_max_str_digits E < n)"

definition py_int :: "env \<Rightarrow> nat \<Rightarrow> pystr \<Rightarrow> exn + int" where
  \<comment> \<open>\<open>int(s, base)\<close> for base 10 and base 16, the two bases the module uses\<close>
  "py_int E base s =
     (case int_sign (dropWhile ascii_space (map (to_ascii E) s)) of
        (neg, s2) \<Rightarrow>
          (let s3 = int_prefix base s2
           in if take 1 s3 = [95] then Inl ValueError
              else case scan_digits base 0 s3 of
                     None \<Rightarrow> Inl ValueError
                   | Some (ds, rest) \<Rightarrow>
                       if ds = [] \<or> dropWhile ascii_space rest \<noteq> [] then Inl ValueError
                       else if too_many_digits E base (length ds) then Inl ValueError
                       else (let v = int (foldl (\<lambda>a d. a * base + d) 0 ds)
                             in Inr (if neg then - v else v))))"

definition py_chr :: "int \<Rightarrow> exn + pystr" where
  \<comment> \<open>\<open>chr(i)\<close>\<close>
  "py_chr i =
     (if i < - 2147483648 \<or> 2147483648 \<le> i then Inl OverflowError
      else if i < 0 \<or> 0x110000 \<le> i then Inl ValueError
      else Inr [nat i])"

function digits_of :: "nat \<Rightarrow> pystr" where
  "digits_of n = (if n < 10 then [48 + n] else digits_of (n div 10) @ [48 + n mod 10])"
  by pat_completeness auto
termination
  by (relation "measure id") auto

declare digits_of.simps [simp del]

definition py_str_int :: "env \<Rightarrow> int \<Rightarrow> exn + pystr" where
  \<comment> \<open>\<open>f"{i}"\<close> for an \<open>int\<close>\<close>
  "py_str_int E i =
     (let ds = digits_of (nat \<bar>i\<bar>); sign = (if i < 0 then [45] else [])
      in if 640 < length (sign @ ds) \<and> 0 < int_max_str_digits E
            \<and> int_max_str_digits E < length ds
         then Inl ValueError
         else Inr (sign @ ds))"

section \<open>Module-level functions\<close>

fun decode_loop :: "env \<Rightarrow> pystr \<Rightarrow> nat list \<Rightarrow> pystr \<Rightarrow> exn + pystr" where
  \<comment> \<open>the body of \<open>decode\<close>'s \<open>for i in range(...)\<close>, with the result so far\<close>
  "decode_loop E st [] r = Inr r"
| "decode_loop E st (i # is) r =
     (let a = i * 4
      in case py_int E 16 (take 4 (drop a st)) of
           Inl e \<Rightarrow> Inl e
         | Inr v \<Rightarrow>
             (case py_chr v of
                Inl e \<Rightarrow> Inl e
              | Inr c \<Rightarrow> decode_loop E st is (r @ c)))"

definition decode :: "env \<Rightarrow> pystr \<Rightarrow> exn + pystr" where
  "decode E st = decode_loop E st [0 ..< length st div 4] []"

definition encode :: "pystr \<Rightarrow> exn + pystr" where
  "encode st =
     (case utf16_be_encode st of
        Inl e \<Rightarrow> Inl e
      | Inr b \<Rightarrow>
          (case utf8_decode (hexlify b) of
             Inl e \<Rightarrow> Inl e
           | Inr h \<Rightarrow> Inr (upper_ascii h)))"

text \<open>
  \<open>parser_read\<close> tests its argument's type: a \<open>bytes\<close> object is decoded and split, any
  other sequence is copied into a tuple.
\<close>

datatype read_arg = Bytes bytes | Seq "pystr list"

definition parser_read :: "read_arg \<Rightarrow> exn + pystr list" where
  "parser_read st =
     (case st of
        Bytes b \<Rightarrow>
          (case utf8_decode b of
             Inl e \<Rightarrow> Inl e
           | Inr t \<Rightarrow> Inr (filter (\<lambda>x. x \<noteq> []) (split_str [13, 10] [] t)))
      | Seq xs \<Rightarrow> Inr xs)"

section \<open>Calls, messages and the reassembly buffer\<close>

datatype call = Call pystr timestamp

datatype message = Message pystr timestamp pystr

text \<open>
  \<open>AdditionMessages.m\<close> is a \<open>defaultdict(dict)\<close>: reference id to (part index to text).
  A Python dictionary keeps its keys in insertion order, so it is an association list with
  distinct keys: an assignment replaces in place or appends, \<open>len\<close> is the length.
\<close>

type_synonym parts_dict = "(nat \<times> pystr) list"
type_synonym addition_messages = "(nat \<times> parts_dict) list"

definition AdditionMessages_init :: addition_messages where
  "AdditionMessages_init = []"

definition defaultdict_get :: "addition_messages \<Rightarrow> nat \<Rightarrow> parts_dict" where
  \<comment> \<open>the value \<open>self.m[r]\<close> reads: a missing key stands for a fresh empty \<open>dict\<close>\<close>
  "defaultdict_get m r = (case map_of m r of None \<Rightarrow> [] | Some t \<Rightarrow> t)"

definition AdditionMessages_call ::
  "env \<Rightarrow> pystr \<Rightarrow> addition_messages \<Rightarrow> (exn + message option) \<times> addition_messages" where
  "AdditionMessages_call E msg m =
     (case decodeSmsPdu E msg of
        Inl e \<Rightarrow> (if e = EncodingError then (Inr None, m) else (Inl e, m))
      | Inr p \<Rightarrow>
          (case pdu_udh p of
             [] \<Rightarrow> (Inr (Some (Message (pdu_number p) (pdu_time p) (pdu_text p))), m)
           | d0 # _ \<Rightarrow>
               (let entry = defaultdict_get m (ie_reference d0);
                    entry' = AList.update (ie_number d0) (pdu_text p) entry;
                    m1 = AList.update (ie_reference d0) entry' m
                in if length entry' = ie_parts d0
                   then (let t = entry';
                             m2 = AList.delete (ie_reference d0) m1;
                             text = concat (List.map_filter (map_of t) (sort (map fst t)))
                         in (Inr (Some (Message (pdu_number p) (pdu_time p) text)), m2))
                   else (Inr None, m1))))"

section \<open>The session\<close>

text \<open>
  The task queue holds pairs of a bound method and its arguments; the module only ever
  queues \<open>__incoming_sms\<close> and \<open>additional_function_message\<close>.
\<close>

datatype task =
    Task_incoming_sms int
  | Task_additional_function_message message

text \<open>
  What the session does to the outside world, in order: it opens the serial port, writes
  bytes to it, sleeps, and calls the two overridable handlers.
\<close>

datatype event =
    Open pystr int
  | Write bytes
  | Sleep rat
  | Call_handler call
  | Message_handler message

text \<open>
  The attributes of a \<open>Sim900\<close> object (\<open>a_m\<close> is \<open>_a.m\<close>, \<open>rev_s\<close> is \<open>rev\<close>), followed by
  the world it talks to: \<open>wire\<close> lists what the serial port will hand over, one element
  per \<open>read_all\<close>; \<open>trace\<close> records the events; \<open>clock\<close> is the time that
  \<open>datetime.now()\<close> reads and \<open>sleep\<close> advances.
\<close>

record sim900 =
  tty :: pystr
  speed :: int
  status :: bool
  time_response :: rat
  buffer :: "bytes option"
  auto_del_message :: bool
  operator :: "pystr option"
  rssi :: "pystr option"
  ber :: "pystr option"
  npd :: bool
  dev :: "pystr option"
  rev_s :: "pystr option"
  a_m :: addition_messages
  many_sms :: bool
  task_queue :: "task list"
  wire :: "bytes list"
  trace :: "event list"
  clock :: rat

text \<open>
  A method is a function from the state to a result and the state it leaves behind; an
  exception keeps the changes made before it was raised.
\<close>

type_synonym 'a action = "sim900 \<Rightarrow> (exn + 'a) \<times> sim900"

definition ok :: "'a \<Rightarrow> 'a action" where
  "ok x s = (Inr x, s)"

definition raise :: "exn \<Rightarrow> 'a action" where
  "raise e s = (Inl e, s)"

definition lift :: "exn + 'a \<Rightarrow> 'a action" where
  "lift r s = (r, s)"

definition andThen :: "'a action \<Rightarrow> ('a \<Rightarrow> 'b action) \<Rightarrow> 'b action" where
  "andThen f g s = (case f s of (Inl e, s') \<Rightarrow> (Inl e, s') | (Inr a, s') \<Rightarrow> g a s')"

fun for_each :: "('a \<Rightarrow> unit action) \<Rightarrow> 'a list \<Rightarrow> unit action" where
  "for_each body [] s = (Inr (), s)"
| "for_each body (x # xs) s =
     (case body x s of (Inl e, s') \<Rightarrow> (Inl e, s') | (Inr u, s') \<Rightarrow> for_each body xs s')"

subsection \<open>The serial port, the clock and the handlers\<close>

definition serial_open :: "unit action" where
  "serial_open s = (Inr (), s\<lparr>trace := trace s @ [Open (tty s) (speed s)]\<rparr>)"

definition read_all :: "bytes action" where
  "read_all s = (case wire s of [] \<Rightarrow> (Inr [], s) | b # bs \<Rightarrow> (Inr b, s\<lparr>wire := bs\<rparr>))"

definition in_waiting :: "nat action" where
  "in_waiting s = (Inr (case wire s of [] \<Rightarrow> 0 | b # bs \<Rightarrow> length b), s)"

definition serial_write :: "bytes \<Rightarrow> nat action" where
  "serial_write b s = (Inr (length b), s\<lparr>trace := trace s @ [Write b]\<rparr>)"

definition sleep :: "rat \<Rightarrow> unit action" where
  "sleep d s =
     (if d < 0 then (Inl ValueError, s)
      else (Inr (), s\<lparr>trace := trace s @ [Sleep d], clock := clock s + d\<rparr>))"

definition datetime_now :: "timestamp action" where
  "datetime_now s = (Inr (clock s), s)"

definition additional_function_message :: "message \<Rightarrow> unit action" where
  "additional_function_message msg s = (Inr (), s\<lparr>trace := trace s @ [Message_handler msg]\<rparr>)"

definition additional_function_call :: "call \<Rightarrow> unit action" where
  "additional_function_call c s = (Inr (), s\<lparr>trace := trace s @ [Call_handler c]\<rparr>)"

subsection \<open>The methods of \<open>Sim900\<close>\<close>

definition Sim900_init :: "pystr \<Rightarrow> int \<Rightarrow> bytes list \<Rightarrow> sim900" where
  "Sim900_init t sp w =
     \<lparr> tty = t, speed = sp, status = False, time_response = 3, buffer = None,
       auto_del_message = True, operator = None, rssi = None, ber = None, npd = False,
       dev = None, rev_s = None, a_m = AdditionMessages_init, many_sms = False,
       task_queue = [], wire = w, trace = [Open t sp], clock = 0 \<rparr>"

definition connect :: "unit action" where
  "connect = andThen serial_open (\<lambda>u s. (Inr (), s\<lparr>status := True\<rparr>))"

definition read :: "pystr list action" where
  "read =
     andThen read_all (\<lambda>b.
     andThen (\<lambda>s. (Inr (), s\<lparr>buffer := Some b\<rparr>)) (\<lambda>u.
     lift (parser_read (Bytes b))))"

definition checking_in :: "pystr \<Rightarrow> pystr list \<Rightarrow> bool" where
  "checking_in f ls = list_ex (\<lambda>x. contains f x) ls"

definition command :: "pystr \<Rightarrow> nat action" where
  "command c = andThen (lift (utf8_encode (c @ [13]))) serial_write"

definition hung_up_call :: "nat action" where
  "hung_up_call = command (ustr ''ATH'')"

definition incoming_call :: "pystr list \<Rightarrow> unit action" where
  "incoming_call data =
     andThen hung_up_call (\<lambda>n.
     for_each
       (\<lambda>d. andThen (lift (index (split_str [44] [] (remove_quotes d)) 0)) (\<lambda>x.
             andThen (lift (index (split_ws [] x) 1)) (\<lambda>phone.
             andThen datetime_now (\<lambda>t.
             additional_function_call (Call phone t)))))
       (filter (\<lambda>x. contains (ustr ''CLIP:'') x) data))"

definition CMTI_SM :: pystr where
  \<comment> \<open>the marker \<open>+CMTI: "SM"\<close>, with its two double quotes (character 34)\<close>
  "CMTI_SM = ustr ''+CMTI: '' @ [34] @ ustr ''SM'' @ [34]"

definition enqueue :: "task \<Rightarrow> unit action" where
  \<comment> \<open>\<open>self._task_queue.append(...)\<close>\<close>
  "enqueue t s = (Inr (), s\<lparr>task_queue := task_queue s @ [t]\<rparr>)"

definition incoming_message :: "env \<Rightarrow> pystr list \<Rightarrow> unit action" where
  "incoming_message E data =
     for_each
       (\<lambda>d. andThen (lift (index (split_str [44] [] d) 1)) (\<lambda>x.
             andThen (lift (py_int E 10 x)) (\<lambda>sms_id.
             andThen (\<lambda>s. (Inr (), if 0 < sms_id then s\<lparr>many_sms := True\<rparr> else s)) (\<lambda>u.
             enqueue (Task_incoming_sms sms_id)))))
       (filter (\<lambda>x. contains CMTI_SM x) data)"

definition incoming_ussd :: "env \<Rightarrow> pystr list \<Rightarrow> unit action" where
  "incoming_ussd E data =
     for_each
       (\<lambda>d. andThen datetime_now (\<lambda>t.
             andThen (lift (index (split_str [44] [] d) 1)) (\<lambda>x.
             andThen (lift (decode E (remove_quotes x))) (\<lambda>txt.
             enqueue (Task_additional_function_message (Message (ustr ''USSD'') t txt))))))
       (filter (\<lambda>x. contains (ustr ''CUSD:'') x) data)"

definition checking_incoming_data :: "env \<Rightarrow> pystr list \<Rightarrow> bool action" where
  "checking_incoming_data E st =
     andThen (if checking_in (ustr ''RING'') st then incoming_call st else ok ()) (\<lambda>u.
     andThen (if checking_in (ustr ''CUSD:'') st then incoming_ussd E st else ok ()) (\<lambda>u.
     andThen (if checking_in CMTI_SM st then incoming_message E st else ok ()) (\<lambda>u.
     if checking_in (ustr ''NORMAL POWER DOWN'') st
     then (\<lambda>s. (Inr True, s\<lparr>npd := True, status := False\<rparr>))
     else ok False)))"

definition Sim900Error_new :: "bytes option \<Rightarrow> exn" where
  \<comment> \<open>what \<open>raise Sim900Error(r)\<close> raises: building the message decodes the buffer\<close>
  "Sim900Error_new r =
     (case r of
        None \<Rightarrow> Sim900Error (ustr ''Error run command: None'')
      | Some b \<Rightarrow>
          (case utf8_decode b of
             Inl e \<Rightarrow> e
           | Inr t \<Rightarrow> Sim900Error (ustr ''Error run command: '' @ t)))"

definition parser_command :: "env \<Rightarrow> pystr list \<Rightarrow> pystr list action" where
  "parser_command E data =
     andThen (checking_incoming_data E data) (\<lambda>pd.
     if length data = 0 then raise Sim900NoResponse
     else if last data = ustr ''ERROR'' then (\<lambda>s. (Inl (Sim900Error_new (buffer s)), s))
     else ok (butlast (tl data)))"

definition send_command :: "env \<Rightarrow> pystr \<Rightarrow> pystr list action" where
  "send_command E c =
     andThen (command c) (\<lambda>n.
     andThen (\<lambda>s. sleep (time_response s) s) (\<lambda>u.
     andThen read (parser_command E)))"

definition get_operator :: "env \<Rightarrow> pystr action" where
  "get_operator E =
     andThen (send_command E (ustr ''AT+COPS?'')) (\<lambda>r.
     andThen (lift (index r 0)) (\<lambda>c.
     andThen (lift (index_last (split_str [44] [] c))) (\<lambda>x.
     andThen (\<lambda>s. (Inr (), s\<lparr>operator := Some (remove_quotes x)\<rparr>)) (\<lambda>u.
     ok (remove_quotes x)))))"

definition get_csq :: "env \<Rightarrow> unit action" where
  "get_csq E =
     andThen (send_command E (ustr ''AT+CSQ'')) (\<lambda>r.
     andThen (lift (index r 0)) (\<lambda>c.
     andThen (lift (index_last (split_ws [] c))) (\<lambda>x.
     case split_str [44] [] x of
       [a, b] \<Rightarrow> (\<lambda>s. (Inr (), s\<lparr>rssi := Some a, ber := Some b\<rparr>))
     | _ \<Rightarrow> raise ValueError)))"

definition get_product_info :: "env \<Rightarrow> pystr action" where
  "get_product_info E =
     andThen (send_command E (ustr ''ATI'')) (\<lambda>r.
     andThen (lift (index r 0)) (\<lambda>x.
     andThen (\<lambda>s. (Inr (), s\<lparr>dev := Some x\<rparr>)) (\<lambda>u.
     ok x)))"

definition get_revision :: "env \<Rightarrow> pystr action" where
  "get_revision E =
     andThen (send_command E (ustr ''AT+GMR'')) (\<lambda>r.
     andThen (lift (index r 0)) (\<lambda>x.
     andThen (\<lambda>s. (Inr (), s\<lparr>rev_s := Some x\<rparr>)) (\<lambda>u.
     ok x)))"

definition checking_status_board :: "env \<Rightarrow> unit action" where
  "checking_status_board E =
     andThen (get_product_info E) (\<lambda>a.
     andThen (get_revision E) (\<lambda>b.
     andThen (get_operator E) (\<lambda>c.
     get_csq E)))"

definition pre_up :: "env \<Rightarrow> unit action" where
  "pre_up E =
     andThen read_all (\<lambda>b.
     andThen (send_command E (ustr ''AT'')) (\<lambda>r1.
     andThen (checking_status_board E) (\<lambda>u.
     andThen (send_command E (ustr ''AT+CLIP=1'')) (\<lambda>r2.
     andThen (send_command E (ustr ''AT+CMGF=0'')) (\<lambda>r3.
     ok ())))))"

definition a_call :: "env \<Rightarrow> pystr \<Rightarrow> message option action" where
  \<comment> \<open>\<open>self._a(msg)\<close>\<close>
  "a_call E msg s =
     (case AdditionMessages_call E msg (a_m s) of (r, m') \<Rightarrow> (r, s\<lparr>a_m := m'\<rparr>))"

fun collect_sms :: "env \<Rightarrow> pystr list \<Rightarrow> nat list \<Rightarrow> message list action" where
  \<comment> \<open>the list comprehension of \<open>get_all_sms_message\<close> over the indices \<open>i\<close>\<close>
  "collect_sms E ms [] s = (Inr [], s)"
| "collect_sms E ms (i # is) s =
     (case andThen (lift (index ms i)) (a_call E) s of
        (Inl e, s') \<Rightarrow> (Inl e, s')
      | (Inr m, s') \<Rightarrow>
          (case collect_sms E ms is s' of
             (Inl e, s'') \<Rightarrow> (Inl e, s'')
           | (Inr r, s'') \<Rightarrow> (Inr (case m of None \<Rightarrow> r | Some x \<Rightarrow> x # r), s'')))"

definition get_all_sms_message :: "env \<Rightarrow> message list action" where
  "get_all_sms_message E =
     andThen (send_command E (ustr ''AT+CMGL=4'')) (\<lambda>ms.
     andThen (collect_sms E ms (filter odd [1 ..< length ms])) (\<lambda>msg.
     andThen (\<lambda>s. if auto_del_message s
                   then andThen (send_command E (ustr ''AT+CMGD=1,4'')) (\<lambda>r. ok ()) s
                   else ok () s) (\<lambda>u.
     ok msg)))"

definition send_sms :: "env \<Rightarrow> pystr \<Rightarrow> pystr \<Rightarrow> unit action" where
  "send_sms E phone text =
     andThen (lift (encodeSmsSubmitPdu E phone text)) (\<lambda>ms.
     for_each
       (\<lambda>m. andThen (lift (py_str_int E (tpduLength m))) (\<lambda>n.
             andThen (command (ustr ''AT+CMGS='' @ n)) (\<lambda>w1.
             andThen (sleep (1 / 2)) (\<lambda>u1.
             andThen (lift (utf8_encode (pdu_str m))) (\<lambda>b.
             andThen (serial_write b) (\<lambda>w2.
             andThen (sleep (1 / 2)) (\<lambda>u2.
             andThen (send_command E [26]) (\<lambda>r.
             ok ()))))))))
       ms)"

definition send_ussd :: "env \<Rightarrow> pystr \<Rightarrow> unit action" where
  "send_ussd E ussd =
     andThen (lift (encode ussd)) (\<lambda>h.
     andThen (send_command E (ustr ''AT+CUSD=1,'' @ [34] @ h @ [34])) (\<lambda>r.
     ok ()))"

definition call :: "env \<Rightarrow> pystr \<Rightarrow> unit action" where
  "call E phone = andThen (send_command E (ustr ''ATD'' @ phone @ ustr '';'')) (\<lambda>r. ok ())"

definition del_sms :: "env \<Rightarrow> int \<Rightarrow> unit action" where
  "del_sms E sms_id =
     andThen (lift (py_str_int E sms_id)) (\<lambda>n.
     andThen (send_command E (ustr ''AT+CMGD='' @ n)) (\<lambda>r.
     ok ()))"

definition get_sms :: "env \<Rightarrow> int \<Rightarrow> message option action" where
  "get_sms E sms_id =
     andThen (lift (py_str_int E sms_id)) (\<lambda>n.
     andThen (send_command E (ustr ''AT+CMGR='' @ n)) (\<lambda>r.
     andThen (lift (index r 1)) (\<lambda>x.
     andThen (a_call E x) (\<lambda>msg.
     andThen (\<lambda>s. if auto_del_message s then del_sms E sms_id s else ok () s) (\<lambda>u.
     ok msg)))))"

definition incoming_sms :: "env \<Rightarrow> int \<Rightarrow> unit action" where
  \<comment> \<open>\<open>__incoming_sms\<close>\<close>
  "incoming_sms E sms_id =
     andThen (get_sms E sms_id) (\<lambda>msg.
     case msg of
       None \<Rightarrow> ok ()
     | Some m \<Rightarrow> enqueue (Task_additional_function_message m))"

subsection \<open>The task queue and the run loop\<close>

fun invoke :: "env \<Rightarrow> task \<Rightarrow> unit action" where
  \<comment> \<open>\<open>task[0](*task[1])\<close>\<close>
  "invoke E (Task_incoming_sms sms_id) = incoming_sms E sms_id"
| "invoke E (Task_additional_function_message msg) = additional_function_message msg"

definition run_task :: "env \<Rightarrow> bool action" where
  \<comment> \<open>the \<open>try\<close> block holds both \<open>popleft\<close> and the invocation, so
      \<open>except IndexError\<close> sees either\<close>
  "run_task E s =
     (case task_queue s of
        [] \<Rightarrow> (Inr False, s)
      | t # q \<Rightarrow>
          (case invoke E t (s\<lparr>task_queue := q\<rparr>) of
             (Inl e, s') \<Rightarrow> (if e = IndexError then (Inr False, s') else (Inl e, s'))
           | (Inr u, s') \<Rightarrow> (Inr True, s')))"

text \<open>
  Both loops of \<open>run\<close> may go on for ever, so each takes fuel; \<open>None\<close> means the fuel ran
  out before the loop ended.
\<close>

fun drain :: "env \<Rightarrow> nat \<Rightarrow> sim900 \<Rightarrow> ((exn + unit) \<times> sim900) option" where
  \<comment> \<open>\<open>while len(self._task_queue) > 0: self.run_task()\<close>\<close>
  "drain E 0 s = None"
| "drain E (Suc k) s =
     (if 0 < length (task_queue s)
      then (case run_task E s of
              (Inl e, s') \<Rightarrow> Some (Inl e, s')
            | (Inr b, s') \<Rightarrow> drain E k s')
      else Some (Inr (), s))"

fun run :: "env \<Rightarrow> nat \<Rightarrow> sim900 \<Rightarrow> ((exn + unit) \<times> sim900) option" where
  "run E 0 s = None"
| "run E (Suc k) s =
     (if npd s = False
      then (case drain E (Suc k) s of
              None \<Rightarrow> None
            | Some (Inl e, s1) \<Rightarrow> Some (Inl e, s1)
            | Some (Inr u, s1) \<Rightarrow>
                (case andThen in_waiting
                        (\<lambda>w. if 0 < w then andThen read (checking_incoming_data E)
                              else ok False) s1 of
                   (Inl e, s2) \<Rightarrow> Some (Inl e, s2)
                 | (Inr stop, s2) \<Rightarrow>
                     if stop then Some (Inr (), s2)
                     else (case sleep (1 / 2) s2 of
                             (Inl e, s3) \<Rightarrow> Some (Inl e, s3)
                           | (Inr u', s3) \<Rightarrow> run E k s3)))
      else Some (Inr (), s))"

definition simple_start :: "env \<Rightarrow> pystr \<Rightarrow> int \<Rightarrow> bytes list \<Rightarrow> (exn + unit) \<times> sim900" where
  "simple_start E t sp w = andThen connect (\<lambda>u. pre_up E) (Sim900_init t sp w)"

section \<open>A small environment for concrete runs\<close>

text \<open>
  A codec that knows a table of frames and rejects every other frame with
  \<open>EncodingError\<close>, no Unicode digits beyond ASCII, and the interpreter's default digit
  limit.
\<close>

definition table_codec :: "(pystr \<times> pdu) list \<Rightarrow> pystr \<Rightarrow> exn + pdu" where
  "table_codec tab x = (case map_of tab x of None \<Rightarrow> Inl EncodingError | Some p \<Rightarrow> Inr p)"

definition example_env :: "(pystr \<times> pdu) list \<Rightarrow> env" where
  "example_env tab =
     \<lparr> decodeSmsPdu = table_codec tab, encodeSmsSubmitPdu = (\<lambda>phone text. Inr []),
       unicode_decimal = (\<lambda>c. None), int_max_str_digits = 4300 \<rparr>"

definition fragment :: "pystr \<Rightarrow> timestamp \<Rightarrow> pystr \<Rightarrow> nat \<Rightarrow> nat \<Rightarrow> nat \<Rightarrow> pdu" where
  \<comment> \<open>a decoded frame with a fragmentation header: sender, time, text, reference id,
      total part count, part index\<close>
  "fragment sender t txt r n i =
     \<lparr> pdu_number = sender, pdu_time = t, pdu_text = txt,
       pdu_udh = [\<lparr> ie_reference = r, ie_parts = n, ie_number = i \<rparr>] \<rparr>"

definition is_fragment :: "pdu \<Rightarrow> nat \<Rightarrow> nat \<Rightarrow> nat \<Rightarrow> pystr \<Rightarrow> bool" where
  \<comment> \<open>the decoded frame's first header element gives this reference id, total part
      count and part index, and the frame carries this text\<close>
  "is_fragment p r n i txt =
     (case pdu_udh p of
        [] \<Rightarrow> False
      | h # u \<Rightarrow> ie_reference h = r \<and> ie_parts h = n \<and> ie_number h = i \<and> pdu_text p = txt)"

definition clip_line :: pystr where
  \<comment> \<open>the line \<open>+CLIP: "+15551234567",145,,,,0\<close>\<close>
  "clip_line = ustr ''+CLIP: '' @ [34] @ ustr ''+15551234567'' @ [34] @ ustr '',145,,,,0''"

definition upper_hex :: "nat \<Rightarrow> nat" where
  \<comment> \<open>the upper-case hex digit (as a character) of a value below 16\<close>
  "upper_hex d = (if d < 10 then 48 + d else 55 + d)"

definition hex4 :: "nat \<Rightarrow> pystr" where
  \<comment> \<open>the four upper-case hex digits of one UTF-16 unit\<close>
  "hex4 c =
     [upper_hex (c div 4096), upper_hex (c div 256 mod 16), upper_hex (c div 16 mod 16),
      upper_hex (c mod 16)]"

section \<open>Evaluating actions\<close>

named_theorems act

lemmas [act] = ok_def raise_def lift_def andThen_def serial_open_def read_all_def in_waiting_def
  serial_write_def sleep_def datetime_now_def additional_function_message_def
  additional_function_call_def enqueue_def command_def hung_up_call_def

section \<open>The reassembly buffer drops an undecodable fragment\<close>

text \<open>
  Claim C4.  When the codec raises \<open>EncodingError\<close> on a raw fragment,
  \<open>AdditionMessages.__call__\<close> returns no message (\<open>None\<close>, not an exception) and the
  buffer is exactly what it was.
\<close>

theorem encoding_error_dropped:
  "decodeSmsPdu E msg = Inl EncodingError \<Longrightarrow> AdditionMessages_call E msg m = (Inr None, m)"
  by (simp add: AdditionMessages_call_def)

theorem encoding_error_dropped_witness:
  "decodeSmsPdu (example_env []) (ustr ''0791'') = Inl EncodingError
   \<and> AdditionMessages_call (example_env []) (ustr ''0791'') [(5, [(1, ustr ''A'')])]
       = (Inr None, [(5, [(1, ustr ''A'')])])"
proof -
  have h: "decodeSmsPdu (example_env []) (ustr ''0791'') = Inl EncodingError"
    by (simp add: example_env_def table_codec_def)
  show ?thesis
    using h encoding_error_dropped [OF h, of "[(5, [(1, ustr ''A'')])]"] by simp
qed

section \<open>An incoming call is refused and reported at once\<close>

text \<open>
  Claim C8.  Classifying the caller-id line \<open>+CLIP: "+15551234567",145,,,,0\<close> together
  with a \<open>RING\<close> line, in either order and from any session state, writes \<open>ATH\<close> to the
  port once and then calls the call handler once with the phone \<open>+15551234567\<close> and
  the current time.  Nothing else changes: the task queue in particular is untouched, so
  the handler is not deferred; the classifier returns \<open>False\<close>.
\<close>

theorem ring_hangs_up_and_reports_once:
  "checking_incoming_data E [clip_line, ustr ''RING''] s =
     (Inr False,
      s\<lparr>trace := trace s @ [Write (bstr ''ATH'' @ [13]),
                             Call_handler (Call (ustr ''+15551234567'') (clock s))]\<rparr>)
   \<and> checking_incoming_data E [ustr ''RING'', clip_line] s =
     (Inr False,
      s\<lparr>trace := trace s @ [Write (bstr ''ATH'' @ [13]),
                             Call_handler (Call (ustr ''+15551234567'') (clock s))]\<rparr>)"
  by (simp add: checking_incoming_data_def checking_in_def incoming_call_def act clip_line_def
      ustr_def bstr_def CMTI_SM_def index_def remove_quotes_def py_isspace_def utf8_char_def)

section \<open>Reassembly of fragmented messages\<close>

text \<open>
  Claim C2, as the code has it.  \<open>AdditionMessages\<close> never stores a total part count:
  each call compares the number of part indices stored under the reference id, the
  fragment just ingested included, with the total that this fragment declares.  The entry
  completes (it is popped and a \<open>Message\<close> with the texts in ascending part-index order
  is returned) exactly when the two are equal; otherwise the call returns \<open>None\<close> and the
  entry stays, with the fragment's text stored.
\<close>

theorem completion_compares_with_current_fragment:
  assumes "decodeSmsPdu E msg = Inr p" and "pdu_udh p = d0 # ds"
      and "distinct (map fst (defaultdict_get m (ie_reference d0)))"
  shows "AdditionMessages_call E msg m =
     (let stored = AList.update (ie_number d0) (pdu_text p) (defaultdict_get m (ie_reference d0))
      in if card (insert (ie_number d0) (fst ` set (defaultdict_get m (ie_reference d0))))
            = ie_parts d0
         then (Inr (Some (Message (pdu_number p) (pdu_time p)
                  (concat (List.map_filter (map_of stored) (sort (map fst stored)))))),
               AList.delete (ie_reference d0) m)
         else (Inr None, AList.update (ie_reference d0) stored m))"
proof -
  let ?e = "defaultdict_get m (ie_reference d0)"
  let ?s = "AList.update (ie_number d0) (pdu_text p) ?e"
  have "distinct (map fst ?s)"
    using assms(3) by (rule distinct_update)
  then have "length ?s = card (fst ` set ?s)"
    by (metis distinct_card length_map set_map)
  also have "\<dots> = card (insert (ie_number d0) (fst ` set ?e))"
    by (simp add: dom_update)
  finally have len: "length ?s = card (insert (ie_number d0) (fst ` set ?e))" .
  show ?thesis
    using assms(1,2) len
    by (simp add: AdditionMessages_call_def Let_def delete_update_same)
qed

theorem completion_compares_with_current_fragment_witness:
  "decodeSmsPdu (example_env [(ustr ''f2'', fragment (ustr ''+1555'') 11 (ustr ''B'') 7 2 2)])
     (ustr ''f2'') = Inr (fragment (ustr ''+1555'') 11 (ustr ''B'') 7 2 2)
   \<and> pdu_udh (fragment (ustr ''+1555'') 11 (ustr ''B'') 7 2 2)
       = \<lparr> ie_reference = 7, ie_parts = 2, ie_number = 2 \<rparr> # []
   \<and> distinct (map fst (defaultdict_get [(7, [(1, ustr ''A'')])] 7))
   \<and> AdditionMessages_call
       (example_env [(ustr ''f2'', fragment (ustr ''+1555'') 11 (ustr ''B'') 7 2 2)])
       (ustr ''f2'') [(7, [(1, ustr ''A'')])]
       = (Inr (Some (Message (ustr ''+1555'') 11 (ustr ''AB''))), [])"
proof -
  have h1: "decodeSmsPdu (example_env [(ustr ''f2'', fragment (ustr ''+1555'') 11 (ustr ''B'') 7 2 2)])
     (ustr ''f2'') = Inr (fragment (ustr ''+1555'') 11 (ustr ''B'') 7 2 2)"
    by (simp add: example_env_def table_codec_def)
  have h2: "pdu_udh (fragment (ustr ''+1555'') 11 (ustr ''B'') 7 2 2)
       = \<lparr> ie_reference = 7, ie_parts = 2, ie_number = 2 \<rparr> # []"
    by (simp add: fragment_def)
  have h3: "distinct (map fst (defaultdict_get [(7, [(1, ustr ''A'')])]
              (ie_reference \<lparr> ie_reference = 7, ie_parts = 2, ie_number = 2 \<rparr>)))"
    by (simp add: defaultdict_get_def)
  show ?thesis
    using h1 h2 h3 completion_compares_with_current_fragment [OF h1 h2 h3]
    by (simp add: defaultdict_get_def fragment_def ustr_def List.map_filter_def)
qed

text \<open>
  The claim as the spec words it fails: the first fragment of reference id 7 declares
  three parts, the second declares two, and the second ingest completes the message with
  two parts stored.
\<close>

theorem later_fragment_total_decides:
  "AdditionMessages_call
     (example_env [(ustr ''f1'', fragment (ustr ''+1555'') 10 (ustr ''A'') 7 3 1),
                   (ustr ''f2'', fragment (ustr ''+1555'') 11 (ustr ''B'') 7 2 2)])
     (ustr ''f1'') AdditionMessages_init = (Inr None, [(7, [(1, ustr ''A'')])])
   \<and> AdditionMessages_call
     (example_env [(ustr ''f1'', fragment (ustr ''+1555'') 10 (ustr ''A'') 7 3 1),
                   (ustr ''f2'', fragment (ustr ''+1555'') 11 (ustr ''B'') 7 2 2)])
     (ustr ''f2'') [(7, [(1, ustr ''A'')])]
     = (Inr (Some (Message (ustr ''+1555'') 11 (ustr ''AB''))), [])"
  by (simp add: AdditionMessages_call_def AdditionMessages_init_def example_env_def table_codec_def
      fragment_def defaultdict_get_def ustr_def List.map_filter_def)

text \<open>
  Claim C6.  Three fragments of one reference id, each declaring three parts, arrive
  with part indices 2, 1, 3 and texts \<open>B\<close>, \<open>A\<close>, \<open>C\<close>, while the buffer holds nothing
  for that id.  The first two ingests return \<open>None\<close>; the third returns a \<open>Message\<close>
  with the third fragment's sender and time and the text \<open>ABC\<close>, and the entry is gone.
\<close>

theorem three_fragments_out_of_order:
  assumes "decodeSmsPdu E r1 = Inr p1" and "is_fragment p1 ref 3 2 (ustr ''B'')"
      and "decodeSmsPdu E r2 = Inr p2" and "is_fragment p2 ref 3 1 (ustr ''A'')"
      and "decodeSmsPdu E r3 = Inr p3" and "is_fragment p3 ref 3 3 (ustr ''C'')"
      and "map_of m ref = None"
  shows "AdditionMessages_call E r1 m = (Inr None, AList.update ref [(2, ustr ''B'')] m)
     \<and> AdditionMessages_call E r2 (AList.update ref [(2, ustr ''B'')] m)
         = (Inr None, AList.update ref [(2, ustr ''B''), (1, ustr ''A'')] m)
     \<and> AdditionMessages_call E r3 (AList.update ref [(2, ustr ''B''), (1, ustr ''A'')] m)
         = (Inr (Some (Message (pdu_number p3) (pdu_time p3) (ustr ''ABC''))), m)"
proof -
  have notin: "ref \<notin> fst ` set m"
    using assms(7) by (simp add: map_of_eq_None_iff)
  have s1: "AdditionMessages_call E r1 m = (Inr None, AList.update ref [(2, ustr ''B'')] m)"
    using assms(1,2,7)
    by (auto simp: AdditionMessages_call_def is_fragment_def defaultdict_get_def Let_def
        split: list.splits)
  have s2: "AdditionMessages_call E r2 (AList.update ref [(2, ustr ''B'')] m)
         = (Inr None, AList.update ref [(2, ustr ''B''), (1, ustr ''A'')] m)"
    using assms(3,4)
    by (auto simp: AdditionMessages_call_def is_fragment_def defaultdict_get_def Let_def
        update_conv' split: list.splits)
  have s3: "AdditionMessages_call E r3 (AList.update ref [(2, ustr ''B''), (1, ustr ''A'')] m)
         = (Inr (Some (Message (pdu_number p3) (pdu_time p3) (ustr ''ABC''))), m)"
    using assms(5,6) notin
    by (auto simp: AdditionMessages_call_def is_fragment_def defaultdict_get_def Let_def
        update_conv' delete_update_same List.map_filter_def ustr_def split: list.splits)
  show ?thesis
    using s1 s2 s3 by simp
qed

theorem three_fragments_out_of_order_witness:
  "AdditionMessages_call
     (example_env [(ustr ''x'', fragment (ustr ''+1555'') 10 (ustr ''B'') 4 3 2),
                   (ustr ''y'', fragment (ustr ''+1555'') 11 (ustr ''A'') 4 3 1),
                   (ustr ''z'', fragment (ustr ''+1555'') 12 (ustr ''C'') 4 3 3)])
     (ustr ''x'') [] = (Inr None, [(4, [(2, ustr ''B'')])])
   \<and> AdditionMessages_call
     (example_env [(ustr ''x'', fragment (ustr ''+1555'') 10 (ustr ''B'') 4 3 2),
                   (ustr ''y'', fragment (ustr ''+1555'') 11 (ustr ''A'') 4 3 1),
                   (ustr ''z'', fragment (ustr ''+1555'') 12 (ustr ''C'') 4 3 3)])
     (ustr ''y'') [(4, [(2, ustr ''B'')])] = (Inr None, [(4, [(2, ustr ''B''), (1, ustr ''A'')])])
   \<and> AdditionMessages_call
     (example_env [(ustr ''x'', fragment (ustr ''+1555'') 10 (ustr ''B'') 4 3 2),
                   (ustr ''y'', fragment (ustr ''+1555'') 11 (ustr ''A'') 4 3 1),
                   (ustr ''z'', fragment (ustr ''+1555'') 12 (ustr ''C'') 4 3 3)])
     (ustr ''z'') [(4, [(2, ustr ''B''), (1, ustr ''A'')])]
     = (Inr (Some (Message (ustr ''+1555'') 12 (ustr ''ABC''))), [])"
proof -
  let ?E = "example_env [(ustr ''x'', fragment (ustr ''+1555'') 10 (ustr ''B'') 4 3 2),
                   (ustr ''y'', fragment (ustr ''+1555'') 11 (ustr ''A'') 4 3 1),
                   (ustr ''z'', fragment (ustr ''+1555'') 12 (ustr ''C'') 4 3 3)]"
  have d1: "decodeSmsPdu ?E (ustr ''x'') = Inr (fragment (ustr ''+1555'') 10 (ustr ''B'') 4 3 2)"
    by (simp add: example_env_def table_codec_def ustr_def)
  have d2: "decodeSmsPdu ?E (ustr ''y'') = Inr (fragment (ustr ''+1555'') 11 (ustr ''A'') 4 3 1)"
    by (simp add: example_env_def table_codec_def ustr_def)
  have d3: "decodeSmsPdu ?E (ustr ''z'') = Inr (fragment (ustr ''+1555'') 12 (ustr ''C'') 4 3 3)"
    by (simp add: example_env_def table_codec_def ustr_def)
  have f1: "is_fragment (fragment (ustr ''+1555'') 10 (ustr ''B'') 4 3 2) 4 3 2 (ustr ''B'')"
    by (simp add: is_fragment_def fragment_def)
  have f2: "is_fragment (fragment (ustr ''+1555'') 11 (ustr ''A'') 4 3 1) 4 3 1 (ustr ''A'')"
    by (simp add: is_fragment_def fragment_def)
  have f3: "is_fragment (fragment (ustr ''+1555'') 12 (ustr ''C'') 4 3 3) 4 3 3 (ustr ''C'')"
    by (simp add: is_fragment_def fragment_def)
  have e: "map_of ([] :: addition_messages) 4 = None"
    by simp
  show ?thesis
    using three_fragments_out_of_order [OF d1 f1 d2 f2 d3 f3 e]
    by (simp add: fragment_def)
qed

section \<open>The frame splitter\<close>

lemma utf8_decode_Nil: "utf8_decode [] = Inr []"
  by (subst utf8_decode.simps) simp

lemma utf8_decode_ascii_Cons:
  "unat b < 0x80 \<Longrightarrow>
   utf8_decode (b # bs) = (case utf8_decode bs of Inl e \<Rightarrow> Inl e | Inr cs \<Rightarrow> Inr (unat b # cs))"
  by (subst utf8_decode.simps) (simp add: utf8_take_def)

lemma utf8_decode_ascii:
  "\<forall>b \<in> set bs. unat b < 0x80 \<Longrightarrow> utf8_decode bs = Inr (map unat bs)"
  by (induction bs) (simp_all add: utf8_decode_Nil utf8_decode_ascii_Cons)

lemma split_separators:
  "split_str [13, 10] [] (concat (replicate n [13, 10])) = replicate (Suc n) []"
  by (induction n) simp_all

lemma contains_decompose: "contains sub s \<Longrightarrow> \<exists>u v. s = u @ sub @ v"
proof (induction s)
  case Nil
  then show ?case by simp
next
  case (Cons c cs)
  from Cons.prems have "take (length sub) (c # cs) = sub \<or> contains sub cs" by simp
  then show ?case
  proof
    assume "take (length sub) (c # cs) = sub"
    then have "c # cs = [] @ sub @ drop (length sub) (c # cs)"
      by (metis append_Nil append_take_drop_id)
    then show ?thesis by blast
  next
    assume "contains sub cs"
    then obtain u v where "cs = u @ sub @ v" using Cons.IH by blast
    then have "c # cs = (c # u) @ sub @ v" by simp
    then show ?thesis by blast
  qed
qed

lemma split_str_pieces:
  "sep \<noteq> [] \<Longrightarrow>
   (\<And>u t. acc = u @ t \<Longrightarrow> t \<noteq> [] \<Longrightarrow> take (length sep) (t @ s) \<noteq> sep) \<Longrightarrow>
   x \<in> set (split_str sep acc s) \<Longrightarrow> \<not> contains sep x"
proof (induction sep acc s rule: split_str.induct)
  case (1 sep acc)
  show ?case
  proof
    assume "contains sep x"
    moreover from "1.prems"(3) have "x = acc" by simp
    ultimately obtain u v where uv: "acc = u @ sep @ v"
      using contains_decompose by blast
    have "take (length sep) ((sep @ v) @ []) \<noteq> sep"
      using "1.prems"(1) uv by (intro "1.prems"(2)) auto
    then show False by simp
  qed
next
  case (2 sep acc c cs)
  show ?case
  proof (cases "take (length sep) (c # cs) = sep")
    case True
    with "2.prems"(1,3) have "x = acc \<or> x \<in> set (split_str sep [] (drop (length sep) (c # cs)))"
      by simp
    then show ?thesis
    proof
      assume xa: "x = acc"
      show ?thesis
      proof
        assume "contains sep x"
        then obtain u v where uv: "acc = u @ sep @ v"
          using contains_decompose xa by blast
        have "take (length sep) ((sep @ v) @ c # cs) \<noteq> sep"
          using "2.prems"(1) uv by (intro "2.prems"(2)) auto
        then show False by simp
      qed
    next
      assume "x \<in> set (split_str sep [] (drop (length sep) (c # cs)))"
      then show ?thesis
        using "2.IH"(1) "2.prems"(1) True by simp
    qed
  next
    case False
    with "2.prems"(3) have mem: "x \<in> set (split_str sep (acc @ [c]) cs)"
      by simp
    have inv: "take (length sep) (t @ cs) \<noteq> sep" if "acc @ [c] = u @ t" "t \<noteq> []" for u t
    proof (cases "t = [c]")
      case True
      then show ?thesis using False by simp
    next
      case ne: False
      from that obtain t' where t': "t = t' @ [c]"
        by (metis append_butlast_last_id last_appendR last_snoc)
      with ne have "t' \<noteq> []" by auto
      moreover from that t' have "acc = u @ t'" by simp
      ultimately have "take (length sep) (t' @ c # cs) \<noteq> sep"
        using "2.prems"(2) by blast
      then show ?thesis using t' by simp
    qed
    have neg: "\<not> (sep \<noteq> [] \<and> take (length sep) (c # cs) = sep)"
      using False by simp
    show ?thesis
      by (rule "2.IH"(2) [OF neg "2.prems"(1) _ mem]) (rule inv)
  qed
qed


text \<open>
  Claim C9.  A byte buffer that is empty or made of line separators only (any number of
  \<open>\r\n\<close>) splits into no lines at all; and whenever \<open>parser_read\<close> returns for a byte
  buffer, every line it returns is non-empty and does not contain the separator.
\<close>

theorem frame_splitter_lines:
  "parser_read (Bytes (concat (replicate n [13, 10]))) = Inr []
   \<and> (\<forall>ls. parser_read (Bytes b) = Inr ls \<longrightarrow> (\<forall>x \<in> set ls. x \<noteq> [] \<and> \<not> contains [13, 10] x))"
proof
  have "\<forall>b \<in> set (concat (replicate n [13, 10 :: byte])). unat b < 0x80"
    by (induction n) auto
  then have "utf8_decode (concat (replicate n [13, 10])) = Inr (map unat (concat (replicate n [13, 10 :: byte])))"
    by (rule utf8_decode_ascii)
  also have "map unat (concat (replicate n [13, 10 :: byte])) = concat (replicate n [13, 10])"
    by (induction n) auto
  finally show "parser_read (Bytes (concat (replicate n [13, 10]))) = Inr []"
    by (simp add: parser_read_def split_separators)
next
  show "\<forall>ls. parser_read (Bytes b) = Inr ls \<longrightarrow> (\<forall>x \<in> set ls. x \<noteq> [] \<and> \<not> contains [13, 10] x)"
  proof (intro allI impI ballI)
    fix ls x
    assume r: "parser_read (Bytes b) = Inr ls" and x: "x \<in> set ls"
    from r obtain t where ls: "ls = filter (\<lambda>x. x \<noteq> []) (split_str [13, 10] [] t)"
      by (auto simp: parser_read_def split: sum.splits)
    with x have "x \<noteq> []" and "x \<in> set (split_str [13, 10] [] t)" by auto
    moreover have "\<not> contains [13, 10] x"
      by (rule split_str_pieces [of "[13, 10]" "[]" t x]) (use calculation in auto)
    ultimately show "x \<noteq> [] \<and> \<not> contains [13, 10] x" by simp
  qed
qed

theorem frame_splitter_lines_witness:
  "parser_read (Bytes (concat (replicate 2 [13, 10]))) = Inr []
   \<and> parser_read (Bytes (bstr ''AT'' @ [13, 10, 13, 10] @ bstr ''OK'' @ [13, 10]))
       = Inr [ustr ''AT'', ustr ''OK'']
   \<and> ustr ''AT'' \<noteq> [] \<and> \<not> contains [13, 10] (ustr ''AT'')
   \<and> ustr ''OK'' \<noteq> [] \<and> \<not> contains [13, 10] (ustr ''OK'')"
proof -
  let ?b = "bstr ''AT'' @ [13, 10, 13, 10] @ bstr ''OK'' @ [13, 10]"
  have "\<forall>b \<in> set ?b. unat b < 0x80"
    by (simp add: bstr_def)
  then have "utf8_decode ?b = Inr (map unat ?b)"
    by (rule utf8_decode_ascii)
  then have h: "parser_read (Bytes ?b) = Inr [ustr ''AT'', ustr ''OK'']"
    by (simp add: parser_read_def bstr_def ustr_def)
  note t = frame_splitter_lines [of 2 ?b]
  from t have a: "parser_read (Bytes (concat (replicate 2 [13, 10]))) = Inr []"
    by (rule conjunct1)
  from t have "\<forall>ls. parser_read (Bytes ?b) = Inr ls
                 \<longrightarrow> (\<forall>x \<in> set ls. x \<noteq> [] \<and> \<not> contains [13, 10] x)"
    by (rule conjunct2)
  then have "parser_read (Bytes ?b) = Inr [ustr ''AT'', ustr ''OK'']
               \<longrightarrow> (\<forall>x \<in> set [ustr ''AT'', ustr ''OK'']. x \<noteq> [] \<and> \<not> contains [13, 10] x)"
    by (rule spec)
  then have c: "\<forall>x \<in> set [ustr ''AT'', ustr ''OK'']. x \<noteq> [] \<and> \<not> contains [13, 10] x"
    using h by (rule mp)
  have "ustr ''AT'' \<noteq> [] \<and> \<not> contains [13, 10] (ustr ''AT'')"
    using c by simp
  moreover have "ustr ''OK'' \<noteq> [] \<and> \<not> contains [13, 10] (ustr ''OK'')"
    using c by simp
  ultimately show ?thesis
    using a h by simp
qed

section \<open>The hex text transform\<close>

lemma unat_hexdigit: "d < 16 \<Longrightarrow> unat (hexdigit d) = (if d < 10 then 48 + d else 87 + d)"
  by (simp add: hexdigit_def unat_of_nat)

lemma hexdigit_ascii: "d < 16 \<Longrightarrow> unat (hexdigit d) < 0x80"
  by (simp add: unat_hexdigit)

lemma byte_nibbles: "unat (b :: byte) div 16 < 16" "unat b mod 16 < 16"
proof -
  have "unat b < 2 ^ LENGTH(8)" by (rule unsigned_less)
  then show "unat b div 16 < 16" by simp
  show "unat b mod 16 < 16" by simp
qed

lemma hexlify_ascii: "\<forall>b \<in> set (hexlify bs). unat b < 0x80"
proof (induction bs)
  case Nil
  then show ?case by (simp add: hexlify_def)
next
  case (Cons a bs)
  have "unat (hexdigit (unat a div 16)) < 0x80"
    by (rule hexdigit_ascii) (rule byte_nibbles)
  moreover have "unat (hexdigit (unat a mod 16)) < 0x80"
    by (rule hexdigit_ascii) (rule byte_nibbles)
  ultimately show ?case using Cons by (simp add: hexlify_def)
qed

lemma utf16_bmp:
  "\<forall>c \<in> set s. c < 0x10000 \<and> \<not> (0xD800 \<le> c \<and> c \<le> 0xDFFF) \<Longrightarrow>
   utf16_be_encode s = Inr (concat (map (\<lambda>c. [of_nat (c div 256), of_nat (c mod 256)]) s))"
  by (induction s) (simp_all add: utf16_be_char_def)

lemma upper_ascii_append: "upper_ascii (a @ b) = upper_ascii a @ upper_ascii b"
  by (simp add: upper_ascii_def)

lemma upper_of_hexdigit:
  "d < 16 \<Longrightarrow> upper_ascii (unat (hexdigit d) # ws) = upper_hex d # upper_ascii ws"
  by (simp add: unat_hexdigit upper_ascii_def upper_hex_def)

lemma hex_of_unit:
  assumes "c < 0x10000"
  shows "upper_ascii (map unat (hexlify [of_nat (c div 256), of_nat (c mod 256)])) = hex4 c"
proof -
  have a: "unat (of_nat (c div 256) :: byte) = c div 256"
    using assms by (simp add: unat_of_nat)
  have b: "unat (of_nat (c mod 256) :: byte) = c mod 256"
    by (simp add: unat_of_nat)
  have d1: "c div 256 div 16 = c div 4096" by (simp add: div_mult2_eq)
  have "c mod (16 * 16) = 16 * (c div 16 mod 16) + c mod 16"
    by (rule mod_mult2_eq)
  then have "c mod 256 = 16 * (c div 16 mod 16) + c mod 16"
    by simp
  then have d2: "c mod 256 div 16 = c div 16 mod 16"
    by simp
  have d3: "c mod 256 mod 16 = c mod 16"
    by (rule mod_mod_cancel) simp
  have l: "c div 4096 < 16" "c div 256 mod 16 < 16" "c div 16 mod 16 < 16" "c mod 16 < 16"
    using assms by simp_all
  have "map unat (hexlify [of_nat (c div 256), of_nat (c mod 256)])
        = [unat (hexdigit (c div 4096)), unat (hexdigit (c div 256 mod 16)),
           unat (hexdigit (c div 16 mod 16)), unat (hexdigit (c mod 16))]"
    by (simp add: hexlify_def a b d1 d2 d3)
  moreover have "upper_ascii [] = []"
    by (simp add: upper_ascii_def)
  ultimately show ?thesis
    by (simp only: upper_of_hexdigit [OF l(1)] upper_of_hexdigit [OF l(2)]
        upper_of_hexdigit [OF l(3)] upper_of_hexdigit [OF l(4)] hex4_def)
qed

lemma encode_bmp:
  assumes "\<forall>c \<in> set s. c < 0x10000 \<and> \<not> (0xD800 \<le> c \<and> c \<le> 0xDFFF)"
  shows "encode s = Inr (concat (map hex4 s))"
proof -
  let ?f = "\<lambda>c. [of_nat (c div 256), of_nat (c mod 256) :: byte]"
  have "upper_ascii (map unat (hexlify (concat (map ?f s)))) = concat (map hex4 s)"
    using assms
  proof (induction s)
    case Nil
    then show ?case by (simp add: hexlify_def upper_ascii_def)
  next
    case (Cons c s)
    have "hexlify (concat (map ?f (c # s))) = hexlify (?f c) @ hexlify (concat (map ?f s))"
      by (simp add: hexlify_def)
    then show ?case
      using Cons hex_of_unit [of c] by (simp add: upper_ascii_append)
  qed
  then show ?thesis
    using assms by (simp add: encode_def utf16_bmp utf8_decode_ascii hexlify_ascii)
qed

lemma upper_hex_facts:
  assumes "d < 16"
  shows "upper_hex d < 127" and "\<not> ascii_space (upper_hex d)" and "upper_hex d \<noteq> 45"
    and "upper_hex d \<noteq> 43" and "upper_hex d \<noteq> 95" and "upper_hex d \<noteq> 120" and "upper_hex d \<noteq> 88"
    and "digit_value (upper_hex d) = Some d"
  using assms by (auto simp: upper_hex_def ascii_space_def digit_value_def)

lemma horner16:
  "c = 16 * q1 + r0 \<Longrightarrow> q1 = 16 * q2 + r1 \<Longrightarrow> q2 = 16 * q3 + r2 \<Longrightarrow>
   ((q3 * 16 + r2) * 16 + r1) * 16 + r0 = (c::nat)"
  by (simp add: algebra_simps)

lemma hex4_value:
  "((c div 4096 * 16 + c div 256 mod 16) * 16 + c div 16 mod 16) * 16 + c mod 16 = (c::nat)"
proof (rule horner16)
  show "c = 16 * (c div 16) + c mod 16" by simp
  have "c div 16 div 16 = c div 256" by (simp add: div_mult2_eq)
  then show "c div 16 = 16 * (c div 256) + c div 16 mod 16"
    by (metis mult_div_mod_eq)
  have "c div 256 div 16 = c div 4096" by (simp add: div_mult2_eq)
  then show "c div 256 = 16 * (c div 4096) + c div 256 mod 16"
    by (metis mult_div_mod_eq)
qed

lemma scan_hex_digit:
  "d < 16 \<Longrightarrow>
   scan_digits 16 prev (upper_hex d # cs) =
     (case scan_digits 16 (upper_hex d) cs of None \<Rightarrow> None | Some (ds, r) \<Rightarrow> Some (d # ds, r))"
  by (simp add: upper_hex_facts)

lemma py_int_hex4:
  assumes "c < 0x10000"
  shows "py_int E 16 (hex4 c) = Inr (int c)"
proof -
  have b: "c div 4096 < 16" "c div 256 mod 16 < 16" "c div 16 mod 16 < 16" "c mod 16 < 16"
    using assms by simp_all
  have m: "map (to_ascii E) (hex4 c) = hex4 c"
    using b by (simp add: hex4_def to_ascii_def upper_hex_facts)
  have d: "dropWhile ascii_space (hex4 c) = hex4 c"
    using b by (simp add: hex4_def upper_hex_facts)
  have s: "int_sign (hex4 c) = (False, hex4 c)"
    using b by (simp add: hex4_def int_sign_def upper_hex_facts)
  have p: "int_prefix 16 (hex4 c) = hex4 c"
    using b by (simp add: hex4_def int_prefix_def upper_hex_facts)
  have t: "take 1 (hex4 c) \<noteq> [95]"
    using b by (simp add: hex4_def upper_hex_facts)
  have sc: "scan_digits 16 0 (hex4 c)
            = Some ([c div 4096, c div 256 mod 16, c div 16 mod 16, c mod 16], [])"
    using b by (simp add: hex4_def scan_hex_digit upper_hex_facts del: scan_digits.simps(2))
  have val: "foldl (\<lambda>a d. a * 16 + d) 0 [c div 4096, c div 256 mod 16, c div 16 mod 16, c mod 16] = c"
    using hex4_value [of c] by simp
  have "py_int E 16 (hex4 c)
        = Inr (int (foldl (\<lambda>a d. a * 16 + d) 0
                      [c div 4096, c div 256 mod 16, c div 16 mod 16, c mod 16]))"
    using t by (simp add: py_int_def m d s p sc too_many_digits_def del: foldl_Cons)
  then show ?thesis
    by (simp only: val)
qed

lemma length_hex4 [simp]: "length (hex4 c) = 4"
  by (simp add: hex4_def)

lemma decode_loop_hex:
  assumes "\<forall>c \<in> set s. c < 0x10000" and "length pre = 4 * k"
  shows "decode_loop E (pre @ concat (map hex4 s)) [k ..< k + length s] r = Inr (r @ s)"
  using assms
proof (induction s arbitrary: pre k r)
  case Nil
  then show ?case by simp
next
  case (Cons c s)
  have "[k ..< Suc (k + length s)] = k # [Suc k ..< Suc (k + length s)]"
    by (rule upt_conv_Cons) simp
  then have u: "[k ..< k + length (c # s)] = k # [Suc k ..< Suc k + length s]"
    by simp
  have t: "take 4 (drop (k * 4) (pre @ concat (map hex4 (c # s)))) = hex4 c"
    using Cons.prems(2) by (simp add: mult.commute)
  have "decode_loop E ((pre @ hex4 c) @ concat (map hex4 s)) [Suc k ..< Suc k + length s] (r @ [c])
            = Inr ((r @ [c]) @ s)"
    using Cons.prems by (intro Cons.IH) simp_all
  then have ih: "decode_loop E (pre @ concat (map hex4 (c # s))) [Suc k ..< Suc k + length s] (r @ [c])
            = Inr (r @ c # s)"
    by simp
  have c: "c < 0x10000" using Cons.prems(1) by simp
  have ch: "py_chr (int c) = Inr [c]"
    using c by (simp add: py_chr_def)
  show ?case
    by (simp only: u decode_loop.simps Let_def t py_int_hex4 [OF c] ch sum.case ih)
qed


text \<open>
  Claim C10.  For a string whose characters each encode to a single UTF-16 unit (code
  points below \<open>0x10000\<close> that are not surrogates), \<open>encode\<close> succeeds and \<open>decode\<close> of
  its result gives the string back.
\<close>

theorem hex_round_trip:
  assumes "\<forall>c \<in> set s. c < 0x10000 \<and> \<not> (0xD800 \<le> c \<and> c \<le> 0xDFFF)"
  shows "\<exists>h. encode s = Inr h \<and> decode E h = Inr s"
proof -
  have len: "length (concat (map hex4 s)) = 4 * length s"
    by (induction s) simp_all
  have "decode_loop E ([] @ concat (map hex4 s)) [0 ..< 0 + length s] [] = Inr ([] @ s)"
    using assms by (intro decode_loop_hex) auto
  then have "decode E (concat (map hex4 s)) = Inr s"
    by (simp add: decode_def len)
  then show ?thesis
    using encode_bmp [OF assms] by blast
qed

theorem hex_round_trip_witness:
  "\<exists>h. encode [0x20AC, 65] = Inr h \<and> decode (example_env []) h = Inr [0x20AC, 65]"
proof -
  have h: "\<forall>c \<in> set [0x20AC, 65 :: nat]. c < 0x10000 \<and> \<not> (0xD800 \<le> c \<and> c \<le> 0xDFFF)"
    by simp
  show ?thesis
    using hex_round_trip [OF h, of "example_env []"] .
qed

end
